theory Spec2Isabelle
  imports Main
begin

section \<open>Data model\<close>

text \<open>
  A turn is the dictionary \<^verbatim>\<open>{'role': role, 'content': content}\<close> that
  \<^verbatim>\<open>add_message_to_history\<close> builds. Both fields are Python strings; a Python string
  is modelled as a list of characters, one \<^typ>\<open>char\<close> for each character that
  \<^verbatim>\<open>len\<close> counts.
\<close>

record turn =
  role :: string
  content :: string

text \<open>
  \<^verbatim>\<open>self.conversations: Dict[int, List[Dict]]\<close>: user ids are Python integers, a missing
  key is \<open>None\<close>.
\<close>

type_synonym store = "int \<rightharpoonup> turn list"

subsection \<open>Configuration (config.py)\<close>

definition MAX_MESSAGE_LENGTH :: int where
  "MAX_MESSAGE_LENGTH = 4096"

definition MAX_HISTORY_LENGTH :: int where
  "MAX_HISTORY_LENGTH = 10"

subsection \<open>Python slicing\<close>

text \<open>
  A slice bound of Python, normalised against a sequence of length \<open>n\<close>: a negative
  bound counts from the end, and every bound is clamped into \<open>0..n\<close>.
\<close>

definition py_bound :: "nat \<Rightarrow> int \<Rightarrow> nat" where
  "py_bound n i = (if i < 0 then nat (max 0 (int n + i)) else min n (nat i))"

text \<open>\<^verbatim>\<open>xs[lo:hi]\<close> with step 1; an omitted bound is \<open>None\<close>.\<close>

definition py_slice :: "'a list \<Rightarrow> int option \<Rightarrow> int option \<Rightarrow> 'a list" where
  "py_slice xs lo hi =
     (let n = length xs;
          s = (case lo of None \<Rightarrow> 0 | Some i \<Rightarrow> py_bound n i);
          e = (case hi of None \<Rightarrow> n | Some j \<Rightarrow> py_bound n j)
      in take (e - s) (drop s xs))"

section \<open>GeminiClient (gemini_client.py)\<close>

text \<open>\<^verbatim>\<open>self.conversations.get(user_id, [])\<close>\<close>

definition buffer :: "store \<Rightarrow> int \<Rightarrow> turn list" where
  "buffer cs user_id = (case cs user_id of None \<Rightarrow> [] | Some b \<Rightarrow> b)"

text \<open>
  \<^verbatim>\<open>add_message_to_history(self, user_id, role, content)\<close>: the buffer is created when
  the key is missing, the turn is appended, and a buffer longer than
  \<^verbatim>\<open>MAX_HISTORY_LENGTH * 2\<close> is replaced by its slice
  \<^verbatim>\<open>[-config.MAX_HISTORY_LENGTH * 2:]\<close>. The updated store is returned.
\<close>

definition add_message_to_history :: "store \<Rightarrow> int \<Rightarrow> string \<Rightarrow> string \<Rightarrow> store" where
  "add_message_to_history cs user_id r c =
     (let cs1 = (if cs user_id = None then cs(user_id \<mapsto> []) else cs);
          b1 = buffer cs1 user_id @ [\<lparr>role = r, content = c\<rparr>];
          cs2 = cs1(user_id \<mapsto> b1)
      in if int (length b1) > MAX_HISTORY_LENGTH * 2
         then cs2(user_id \<mapsto> py_slice b1 (Some (- MAX_HISTORY_LENGTH * 2)) None)
         else cs2)"

text \<open>\<^verbatim>\<open>clear_conversation(self, user_id)\<close>: only a present key is reset.\<close>

definition clear_conversation :: "store \<Rightarrow> int \<Rightarrow> store" where
  "clear_conversation cs user_id =
     (if cs user_id \<noteq> None then cs(user_id \<mapsto> []) else cs)"

subsection \<open>Sequences of calls\<close>

text \<open>
  A run of \<^verbatim>\<open>add_message_to_history\<close> calls for one user, each call given by its
  \<open>(role, content)\<close> arguments, in call order.
\<close>

fun add_messages :: "store \<Rightarrow> int \<Rightarrow> (string \<times> string) list \<Rightarrow> store" where
  "add_messages cs user_id [] = cs"
| "add_messages cs user_id ((r, c) # calls) =
     add_messages (add_message_to_history cs user_id r c) user_id calls"

text \<open>The turn that a call with arguments \<open>(role, content)\<close> appends.\<close>

definition turn_of :: "string \<times> string \<Rightarrow> turn" where
  "turn_of rc = \<lparr>role = fst rc, content = snd rc\<rparr>"

text \<open>
  A run of \<open>n\<close> distinguishable calls, alternating user and model turns; call \<open>k\<close>
  (counted from 0) carries \<open>k + 1\<close> characters of content.
\<close>

definition numbered_calls :: "nat \<Rightarrow> (string \<times> string) list" where
  "numbered_calls n =
     map (\<lambda>k. (if even k then ''user'' else ''model'', replicate (Suc k) (CHR ''m''))) [0..<n]"

subsection \<open>The remote generation call\<close>

text \<open>
  A raised Python exception, carrying the text that \<^verbatim>\<open>str(e)\<close> gives.
  \<open>PyException\<close> is an instance of \<^verbatim>\<open>Exception\<close> (network, quota, content and
  safety errors, \<^verbatim>\<open>IndexError\<close>, ...); \<open>PyBaseException\<close> is an exception outside
  \<^verbatim>\<open>Exception\<close>, such as \<^verbatim>\<open>asyncio.CancelledError\<close> or \<^verbatim>\<open>KeyboardInterrupt\<close>
  raised at the \<^verbatim>\<open>await\<close>.
\<close>

datatype py_exception = PyException string | PyBaseException string

fun exn_str :: "py_exception \<Rightarrow> string" where
  "exn_str (PyException s) = s"
| "exn_str (PyBaseException s) = s"

text \<open>\<^verbatim>\<open>isinstance(e, Exception)\<close>: what \<^verbatim>\<open>except Exception as e\<close> catches.\<close>

fun isinstance_Exception :: "py_exception \<Rightarrow> bool" where
  "isinstance_Exception (PyException s) = True"
| "isinstance_Exception (PyBaseException s) = False"

text \<open>
  The remote service is outside the program, so it is a parameter: given the
  \<^verbatim>\<open>history\<close> argument of \<^verbatim>\<open>start_chat\<close> and the argument of
  \<^verbatim>\<open>send_message_async\<close>, it either raises (\<open>Inl\<close>) or yields \<^verbatim>\<open>response.text\<close>
  (\<open>Inr\<close>). Raising covers \<^verbatim>\<open>start_chat\<close>, \<^verbatim>\<open>send_message_async\<close> and reading
  \<^verbatim>\<open>response.text\<close>, which all sit in the same \<^verbatim>\<open>try\<close> block.
\<close>

type_synonym remote = "turn list \<Rightarrow> string \<Rightarrow> py_exception + string"

text \<open>
  The context handed to \<^verbatim>\<open>start_chat\<close> (lines 41 and 44 of gemini\_client.py):
  \<^verbatim>\<open>history = self.conversations.get(user_id, [])\<close>, then
  \<^verbatim>\<open>history[:-1] if history else []\<close>.
\<close>

definition window :: "store \<Rightarrow> int \<Rightarrow> turn list" where
  "window cs user_id =
     (let history = buffer cs user_id
      in if history \<noteq> [] then py_slice history None (Some (- 1)) else [])"

text \<open>
  \<^verbatim>\<open>generate_response(self, user_id, message)\<close>. The result is the pair of the outcome
  and the updated store; an outcome \<open>Inl e\<close> is the exception \<open>e\<close> leaving the function,
  \<open>Inr s\<close> is the returned string. The handler \<^verbatim>\<open>except Exception as e\<close> takes the
  exceptions that are instances of \<^verbatim>\<open>Exception\<close>; any other exception raised in the
  \<^verbatim>\<open>try\<close> block leaves the function, the user turn being appended already. The
  \<^verbatim>\<open>print\<close> of the handler is not modelled.
\<close>

definition generate_response ::
    "remote \<Rightarrow> store \<Rightarrow> int \<Rightarrow> string \<Rightarrow> (py_exception + string) \<times> store" where
  "generate_response remote cs user_id message =
     (let cs1 = add_message_to_history cs user_id ''user'' message
      in case remote (window cs1 user_id) message of
           Inr text \<Rightarrow> (Inr text, add_message_to_history cs1 user_id ''model'' text)
         | Inl e \<Rightarrow>
             if isinstance_Exception e
             then (Inr (''Sorry, I encountered an error: '' @ exn_str e), cs1)
             else (Inl e, cs1))"

text \<open>
  A remote call that raises an \<^verbatim>\<open>Exception\<close> with the given text, whatever it is sent.
\<close>

definition failing_remote :: "string \<Rightarrow> remote" where
  "failing_remote s history message = Inl (PyException s)"

text \<open>
  A remote call during which an exception outside \<^verbatim>\<open>Exception\<close> is raised (the task
  is cancelled at the \<^verbatim>\<open>await\<close>), whatever it is sent.
\<close>

definition cancelled_remote :: "string \<Rightarrow> remote" where
  "cancelled_remote s history message = Inl (PyBaseException s)"

text \<open>A remote call that answers with the given text, whatever it is sent.\<close>

definition succeeding_remote :: "string \<Rightarrow> remote" where
  "succeeding_remote s history message = Inr s"

subsection \<open>The conversation summary\<close>

text \<open>Decimal formatting of a non-negative integer, as an f-string does it.\<close>

fun str_nat :: "nat \<Rightarrow> string" where
  "str_nat n =
     (if n < 10 then [''0123456789'' ! n]
      else str_nat (n div 10) @ [''0123456789'' ! (n mod 10)])"

declare str_nat.simps [simp del]

text \<open>The body of the loop of \<^verbatim>\<open>get_conversation_summary\<close>: the text added for entry \<open>i\<close>.\<close>

definition summary_line :: "nat \<Rightarrow> turn \<Rightarrow> string" where
  "summary_line i msg =
     (let role_label = (if role msg = ''user'' then ''You'' else ''Bot'');
          shown = (if length (content msg) > 50
                   then py_slice (content msg) None (Some 50) @ ''...''
                   else content msg)
      in str_nat i @ ''. '' @ role_label @ '': '' @ shown @ [CHR 0x0A])"

text \<open>\<^verbatim>\<open>for i, msg in enumerate(msgs, i): summary += ...\<close>\<close>

fun summary_loop :: "string \<Rightarrow> nat \<Rightarrow> turn list \<Rightarrow> string" where
  "summary_loop summary i [] = summary"
| "summary_loop summary i (msg # msgs) =
     summary_loop (summary @ summary_line i msg) (Suc i) msgs"

definition get_conversation_summary :: "store \<Rightarrow> int \<Rightarrow> string" where
  "get_conversation_summary cs user_id =
     (case cs user_id of
        None \<Rightarrow> ''No conversation history.''
      | Some messages \<Rightarrow>
          if messages = [] then ''No conversation history.''
          else
            let summary = ''Conversation has '' @ str_nat (length messages) @ '' messages:''
                            @ [CHR 0x0A]
            in summary_loop summary 1 (py_slice messages (Some (- 5)) None))"

text \<open>
  The digest as the specification describes it, to compare with
  \<^verbatim>\<open>get_conversation_summary\<close>: content of at most 50 characters is shown unchanged,
  longer content is cut to 50 characters and followed by the ellipsis marker.
\<close>

definition spec_shown :: "string \<Rightarrow> string" where
  "spec_shown c = (if length c \<le> 50 then c else take 50 c @ ''...'')"

text \<open>One numbered entry of the digest, with the label of the turn's role.\<close>

definition spec_entry :: "nat \<Rightarrow> turn \<Rightarrow> string" where
  "spec_entry i t =
     str_nat i @ ''. '' @ (if role t = ''user'' then ''You'' else ''Bot'') @ '': ''
       @ spec_shown (content t) @ [CHR 0x0A]"

text \<open>
  The whole digest: the fixed message for an empty buffer, otherwise the count \<open>N\<close> and
  the last \<open>min N 5\<close> turns in order, numbered from 1.
\<close>

definition spec_summary :: "turn list \<Rightarrow> string" where
  "spec_summary msgs =
     (if msgs = [] then ''No conversation history.''
      else
        ''Conversation has '' @ str_nat (length msgs) @ '' messages:'' @ [CHR 0x0A]
          @ concat (map (\<lambda>(i, t). spec_entry i t)
                      (zip [1..<Suc (min (length msgs) 5)]
                           (drop (length msgs - min (length msgs) 5) msgs))))"

text \<open>Reading a decimal numeral back, to state that \<open>str_nat\<close> writes the number.\<close>

definition digit_value :: "char \<Rightarrow> nat" where
  "digit_value ch = of_char ch - 48"

definition decimal_value :: "string \<Rightarrow> nat" where
  "decimal_value s = foldl (\<lambda>a ch. 10 * a + digit_value ch) 0 s"

text \<open>A buffer of six turns, the fourth with 51 characters of content.\<close>

definition six_turns :: "turn list" where
  "six_turns =
     [\<lparr>role = ''user'', content = ''a''\<rparr>, \<lparr>role = ''model'', content = ''b''\<rparr>,
      \<lparr>role = ''user'', content = ''c''\<rparr>, \<lparr>role = ''model'', content = replicate 51 CHR ''x''\<rparr>,
      \<lparr>role = ''user'', content = ''e''\<rparr>, \<lparr>role = ''model'', content = ''f''\<rparr>]"

section \<open>Message delivery (bot.py)\<close>

text \<open>\<^verbatim>\<open>range(start, stop, step)\<close> for a positive step (Python raises on step 0).\<close>

function py_range :: "nat \<Rightarrow> nat \<Rightarrow> nat \<Rightarrow> nat list" where
  "py_range i stop step =
     (if step = 0 \<or> stop \<le> i then [] else i # py_range (i + step) stop step)"
  by pat_completeness auto
termination
  by (relation "measure (\<lambda>(i, stop, step). stop - i)") auto

declare py_range.simps [simp del]

text \<open>
  Line 147 of bot.py:
  \<^verbatim>\<open>[response[i:i+config.MAX_MESSAGE_LENGTH] for i in range(0, len(response), config.MAX_MESSAGE_LENGTH)]\<close>
\<close>

definition response_chunks :: "string \<Rightarrow> string list" where
  "response_chunks response =
     map (\<lambda>i. py_slice response (Some (int i)) (Some (int i + MAX_MESSAGE_LENGTH)))
       (py_range 0 (length response) (nat MAX_MESSAGE_LENGTH))"

text \<open>
  The texts that \<^verbatim>\<open>handle_message\<close> sends for a response, in sending order
  (lines 146 to 154 of bot.py).
\<close>

definition handle_message_texts :: "string \<Rightarrow> string list" where
  "handle_message_texts response =
     (if int (length response) > MAX_MESSAGE_LENGTH then response_chunks response
      else [response])"

section \<open>The terminal variant (terminal\_chat.py)\<close>

text \<open>\<^verbatim>\<open>list.pop(0)\<close>: raises \<^verbatim>\<open>IndexError\<close> on the empty list.\<close>

definition pop0 :: "'a list \<Rightarrow> py_exception + 'a list" where
  "pop0 xs = (case xs of [] \<Rightarrow> Inl (PyException ''pop from empty list'') | x # rest \<Rightarrow> Inr rest)"

text \<open>
  \<^verbatim>\<open>generate_response(message)\<close> of terminal\_chat.py over the global
  \<^verbatim>\<open>conversation_history\<close>, which is passed in and returned. Its handler is
  \<^verbatim>\<open>except Exception as e\<close> too.
\<close>

definition terminal_generate_response ::
    "remote \<Rightarrow> turn list \<Rightarrow> string \<Rightarrow> (py_exception + string) \<times> turn list" where
  "terminal_generate_response remote conversation_history message =
     (let h1 = conversation_history @ [\<lparr>role = ''user'', content = message\<rparr>];
          popped = (if length h1 > 20 then pop0 h1 else Inr h1)
      in case popped of
           Inl e \<Rightarrow>
             if isinstance_Exception e
             then (Inr (''Sorry, I encountered an error: '' @ exn_str e), h1)
             else (Inl e, h1)
         | Inr h2 \<Rightarrow>
             (case remote (py_slice h2 None (Some (- 1))) message of
                Inr text \<Rightarrow> (Inr text, h2 @ [\<lparr>role = ''model'', content = text\<rparr>])
              | Inl e \<Rightarrow>
                  if isinstance_Exception e
                  then (Inr (''Sorry, I encountered an error: '' @ exn_str e), h2)
                  else (Inl e, h2)))"

text \<open>A session: the history after a run of \<^verbatim>\<open>generate_response\<close> calls.\<close>

fun terminal_session :: "remote \<Rightarrow> turn list \<Rightarrow> string list \<Rightarrow> turn list" where
  "terminal_session remote h [] = h"
| "terminal_session remote h (m # ms) =
     terminal_session remote (snd (terminal_generate_response remote h m)) ms"

section \<open>Interleaved calls of several users\<close>

datatype call = AddMessage int string string | ClearConversation int

fun target :: "call \<Rightarrow> int" where
  "target (AddMessage u r c) = u"
| "target (ClearConversation u) = u"

fun apply_call :: "store \<Rightarrow> call \<Rightarrow> store" where
  "apply_call cs (AddMessage u r c) = add_message_to_history cs u r c"
| "apply_call cs (ClearConversation u) = clear_conversation cs u"

fun apply_calls :: "store \<Rightarrow> call list \<Rightarrow> store" where
  "apply_calls cs [] = cs"
| "apply_calls cs (c # calls) = apply_calls (apply_call cs c) calls"

section \<open>Properties of the history buffer\<close>

lemma turn_of_pair: "turn_of (r, c) = \<lparr>role = r, content = c\<rparr>"
  by (simp add: turn_of_def)

lemma nat_diff_int: "nat (max 0 (int n - int k)) = n - k"
  by arith

lemma py_slice_last: "0 < k \<Longrightarrow> py_slice xs (Some (- int k)) None = drop (length xs - k) xs"
  by (simp add: py_slice_def py_bound_def Let_def nat_diff_int)

lemma py_slice_from_cap:
  "py_slice xs (Some (- 20)) None = drop (length xs - 20) xs"
  using py_slice_last [of 20 xs] by simp

lemma buffer_add_message_to_history:
  "buffer (add_message_to_history cs u r c) u =
     drop (Suc (length (buffer cs u)) - 20) (buffer cs u @ [\<lparr>role = r, content = c\<rparr>])"
proof -
  let ?b = "buffer cs u @ [\<lparr>role = r, content = c\<rparr>]"
  have "buffer (add_message_to_history cs u r c) u =
          (if 20 < length ?b then drop (length ?b - 20) ?b else ?b)"
    by (cases "cs u")
      (simp_all add: add_message_to_history_def buffer_def Let_def py_slice_from_cap
        MAX_HISTORY_LENGTH_def del: drop_append)
  then show ?thesis
    by (simp del: drop_append)
qed

lemma buffer_add_messages:
  assumes "length (buffer cs u) \<le> 20"
  shows "buffer (add_messages cs u calls) u =
           drop (length (buffer cs u @ map turn_of calls) - 20) (buffer cs u @ map turn_of calls)"
  using assms
proof (induction calls arbitrary: cs)
  case Nil
  then show ?case by simp
next
  case (Cons rc calls)
  obtain r c where rc: "rc = (r, c)" by (cases rc)
  let ?cs = "add_message_to_history cs u r c"
  let ?b = "buffer cs u @ [\<lparr>role = r, content = c\<rparr>]"
  let ?ts = "map turn_of calls"
  have b1: "buffer ?cs u = drop (length ?b - 20) ?b"
    by (simp add: buffer_add_message_to_history del: drop_append)
  then have le: "length (buffer ?cs u) \<le> 20"
    by simp
  have "buffer (add_messages cs u (rc # calls)) u = buffer (add_messages ?cs u calls) u"
    by (simp add: rc)
  also have "\<dots> = drop (length (buffer ?cs u @ ?ts) - 20) (buffer ?cs u @ ?ts)"
    by (rule Cons.IH [OF le])
  also have "\<dots> = drop (length (?b @ ?ts) - 20) (?b @ ?ts)"
  proof (cases "length ?b \<le> 20")
    case True
    then show ?thesis unfolding b1 by simp
  next
    case False
    then have "length (buffer cs u) = 20" using Cons.prems by simp
    then show ?thesis unfolding b1 by simp
  qed
  finally show ?case
    using turn_of_pair [of r c] by (simp add: rc)
qed

text \<open>
  C1. Whatever the store, one call of \<^verbatim>\<open>add_message_to_history\<close> leaves at most
  \<open>2 * MAX_HISTORY_LENGTH = 20\<close> turns in the user's buffer. Starting from an empty or
  absent buffer of a user, after each call of a run of
  \<^verbatim>\<open>add_message_to_history\<close> calls for that user the buffer has at most
  \<open>2 * MAX_HISTORY_LENGTH = 20\<close> turns and consists of the most recent
  \<open>min n 20\<close> appended turns in their original order, \<open>n\<close> being the number of calls
  made so far; a run of 50 calls leaves exactly the 20 turns numbered 31 to 50.
\<close>

theorem add_message_to_history_keeps_recent:
  assumes "buffer cs u = []"
  shows "int (length (buffer (add_message_to_history cs0 u r c) u)) \<le> 2 * MAX_HISTORY_LENGTH
       \<and> (\<forall>n \<le> length calls.
            int (length (buffer (add_messages cs u (take n calls)) u)) \<le> 2 * MAX_HISTORY_LENGTH
          \<and> length (buffer (add_messages cs u (take n calls)) u) = min n 20
          \<and> buffer (add_messages cs u (take n calls)) u
              = drop (n - min n 20) (map turn_of (take n calls)))
       \<and> (length calls = 50 \<longrightarrow>
            length (buffer (add_messages cs u calls) u) = 20
          \<and> buffer (add_messages cs u calls) u = drop 30 (map turn_of calls))"
proof -
  have eq: "buffer (add_messages cs u xs) u = drop (length xs - 20) (map turn_of xs)" for xs
    using buffer_add_messages [of cs u xs] assms by simp
  have "int (length (buffer (add_messages cs u (take n calls)) u)) \<le> 2 * MAX_HISTORY_LENGTH
      \<and> length (buffer (add_messages cs u (take n calls)) u) = min n 20
      \<and> buffer (add_messages cs u (take n calls)) u
          = drop (n - min n 20) (map turn_of (take n calls))"
    if "n \<le> length calls" for n
  proof -
    have "length (take n calls) = n"
      using that by simp
    with eq [of "take n calls"]
    have e: "buffer (add_messages cs u (take n calls)) u = drop (n - 20) (map turn_of (take n calls))"
      by simp
    have m: "n - min n 20 = n - 20"
      by simp
    have l: "length (drop (n - 20) (map turn_of (take n calls))) = min n 20"
      using that by auto
    have "int (min n 20) \<le> 2 * MAX_HISTORY_LENGTH"
      by (simp add: MAX_HISTORY_LENGTH_def)
    then show ?thesis
      unfolding e l m by simp
  qed
  moreover have "length (buffer (add_messages cs u calls) u) = 20
      \<and> buffer (add_messages cs u calls) u = drop 30 (map turn_of calls)"
    if "length calls = 50"
    unfolding eq using that by simp
  moreover have "int (length (buffer (add_message_to_history cs0 u r c) u))
      \<le> 2 * MAX_HISTORY_LENGTH"
    unfolding buffer_add_message_to_history by (simp add: MAX_HISTORY_LENGTH_def)
  ultimately show ?thesis
    by blast
qed

theorem add_message_to_history_keeps_recent_witness:
  "buffer Map.empty 42 = []
   \<and> (25::nat) \<le> length (numbered_calls 50)
   \<and> length (buffer (add_messages Map.empty 42 (take 25 (numbered_calls 50))) 42) = 20
   \<and> length (numbered_calls 50) = 50
   \<and> length (buffer (add_messages Map.empty 42 (numbered_calls 50)) 42) = 20
   \<and> buffer (add_messages Map.empty 42 (numbered_calls 50)) 42
        = drop 30 (map turn_of (numbered_calls 50))"
proof -
  have h: "buffer Map.empty 42 = []"
    by (simp add: buffer_def)
  have l: "length (numbered_calls 50) = 50"
    by (simp add: numbered_calls_def)
  note t = add_message_to_history_keeps_recent
    [OF h, where calls = "numbered_calls 50", THEN conjunct2]
  from t have "\<forall>n \<le> length (numbered_calls 50).
      int (length (buffer (add_messages Map.empty 42 (take n (numbered_calls 50))) 42))
        \<le> 2 * MAX_HISTORY_LENGTH
      \<and> length (buffer (add_messages Map.empty 42 (take n (numbered_calls 50))) 42) = min n 20
      \<and> buffer (add_messages Map.empty 42 (take n (numbered_calls 50))) 42
          = drop (n - min n 20) (map turn_of (take n (numbered_calls 50)))"
    by (rule conjunct1)
  then have a: "length (buffer (add_messages Map.empty 42 (take 25 (numbered_calls 50))) 42) = 20"
    using l by simp
  from t l have b: "length (buffer (add_messages Map.empty 42 (numbered_calls 50)) 42) = 20
      \<and> buffer (add_messages Map.empty 42 (numbered_calls 50)) 42
           = drop 30 (map turn_of (numbered_calls 50))"
    by blast
  from h l a b show ?thesis by simp
qed

section \<open>Properties of the response generator\<close>

lemma py_slice_butlast: "py_slice xs None (Some (- 1)) = butlast xs"
  by (simp add: py_slice_def py_bound_def Let_def butlast_conv_take nat_diff_int [of "length xs" 1, simplified])

lemma window_butlast: "window cs u = butlast (buffer cs u)"
  by (simp add: window_def Let_def py_slice_butlast)

lemma buffer_add_snoc:
  "buffer (add_message_to_history cs u r c) u
     = butlast (buffer (add_message_to_history cs u r c) u) @ [\<lparr>role = r, content = c\<rparr>]"
proof -
  let ?b = "buffer cs u @ [\<lparr>role = r, content = c\<rparr>]"
  have b: "buffer (add_message_to_history cs u r c) u = drop (length ?b - 20) ?b"
    by (simp add: buffer_add_message_to_history del: drop_append)
  have ne: "drop (length ?b - 20) ?b \<noteq> []"
    by simp
  have "last (drop (length ?b - 20) ?b) = last ?b"
    by (rule last_drop) simp
  then have "last (drop (length ?b - 20) ?b) = \<lparr>role = r, content = c\<rparr>"
    by simp
  with ne show ?thesis
    unfolding b by (metis append_butlast_last_id)
qed

text \<open>
  C2. When the remote call raises an exception that the handler catches,
  \<^verbatim>\<open>generate_response\<close> returns exactly
  \<^verbatim>\<open>"Sorry, I encountered an error: "\<close> followed by the text of the exception, as an
  ordinary return value (no exception leaves the function), and the store is the one left
  by appending the user turn alone: the user's buffer ends with the user turn of the given
  message and no model turn follows it.
\<close>

theorem generate_response_remote_failure:
  assumes "remote (window (add_message_to_history cs u ''user'' msg) u) msg = Inl e"
    and "isinstance_Exception e"
  shows "fst (generate_response remote cs u msg)
           = Inr (''Sorry, I encountered an error: '' @ exn_str e)
       \<and> snd (generate_response remote cs u msg) = add_message_to_history cs u ''user'' msg
       \<and> buffer (snd (generate_response remote cs u msg)) u
           = drop (Suc (length (buffer cs u)) - 20)
               (buffer cs u @ [\<lparr>role = ''user'', content = msg\<rparr>])
       \<and> buffer (snd (generate_response remote cs u msg)) u \<noteq> []
       \<and> last (buffer (snd (generate_response remote cs u msg)) u)
           = \<lparr>role = ''user'', content = msg\<rparr>"
proof -
  have s: "snd (generate_response remote cs u msg) = add_message_to_history cs u ''user'' msg"
    using assms by (simp add: generate_response_def Let_def)
  have f: "fst (generate_response remote cs u msg)
             = Inr (''Sorry, I encountered an error: '' @ exn_str e)"
    using assms by (simp add: generate_response_def Let_def)
  have sn: "buffer (add_message_to_history cs u ''user'' msg) u
      = butlast (buffer (add_message_to_history cs u ''user'' msg) u)
          @ [\<lparr>role = ''user'', content = msg\<rparr>]"
    by (rule buffer_add_snoc)
  have ne: "buffer (add_message_to_history cs u ''user'' msg) u \<noteq> []"
    using sn by (metis snoc_eq_iff_butlast)
  have l: "last (buffer (add_message_to_history cs u ''user'' msg) u)
             = \<lparr>role = ''user'', content = msg\<rparr>"
    using sn by (metis last_snoc)
  show ?thesis
    unfolding s using f ne l by (simp add: buffer_add_message_to_history del: drop_append)
qed

theorem generate_response_remote_failure_witness:
  "failing_remote ''quota exceeded'' (window (add_message_to_history Map.empty 42 ''user'' ''hi'') 42) ''hi''
     = Inl (PyException ''quota exceeded'')
   \<and> isinstance_Exception (PyException ''quota exceeded'')
   \<and> fst (generate_response (failing_remote ''quota exceeded'') Map.empty 42 ''hi'')
       = Inr ''Sorry, I encountered an error: quota exceeded''
   \<and> buffer (snd (generate_response (failing_remote ''quota exceeded'') Map.empty 42 ''hi'')) 42
       = [\<lparr>role = ''user'', content = ''hi''\<rparr>]"
proof -
  have h: "failing_remote ''quota exceeded''
             (window (add_message_to_history Map.empty 42 ''user'' ''hi'') 42) ''hi''
           = Inl (PyException ''quota exceeded'')"
    by (simp add: failing_remote_def)
  have b0: "buffer Map.empty 42 = []"
    by (simp add: buffer_def)
  have i: "isinstance_Exception (PyException ''quota exceeded'')"
    by simp
  note t = generate_response_remote_failure
    [of "failing_remote ''quota exceeded''" Map.empty 42 "''hi''" "PyException ''quota exceeded''",
      OF h i]
  have f: "fst (generate_response (failing_remote ''quota exceeded'') Map.empty 42 ''hi'')
             = Inr ''Sorry, I encountered an error: quota exceeded''"
    using t [THEN conjunct1] by simp
  have b: "buffer (snd (generate_response (failing_remote ''quota exceeded'') Map.empty 42 ''hi'')) 42
             = [\<lparr>role = ''user'', content = ''hi''\<rparr>]"
    using t [THEN conjunct2, THEN conjunct2, THEN conjunct1] unfolding b0 by simp
  from h i f b show ?thesis
    by (intro conjI)
qed

text \<open>
  C3, as the code has it. Whenever the remote call fails with an exception that is an
  instance of \<^verbatim>\<open>Exception\<close> (network, quota, malformed content, safety filter),
  \<^verbatim>\<open>generate_response\<close> does not fail: no exception reaches the caller, and the failure
  is reported as an ordinary return value, the apology prefix followed by the upstream
  error text. The hypothesis is needed: an exception outside \<^verbatim>\<open>Exception\<close> is not
  caught and reaches the caller as it was raised.
\<close>

theorem generate_response_failure_is_returned:
  "(remote (window (add_message_to_history cs u ''user'' msg) u) msg = Inl e
      \<and> isinstance_Exception e \<longrightarrow>
        \<not> isl (fst (generate_response remote cs u msg))
      \<and> fst (generate_response remote cs u msg)
          = Inr (''Sorry, I encountered an error: '' @ exn_str e))
   \<and> (remote (window (add_message_to_history cs u ''user'' msg) u) msg = Inl e
      \<and> \<not> isinstance_Exception e \<longrightarrow>
        fst (generate_response remote cs u msg) = Inl e)"
  by (simp add: generate_response_def Let_def)

theorem generate_response_failure_is_returned_witness:
  "failing_remote ''quota exceeded'' (window (add_message_to_history Map.empty 42 ''user'' ''hi'') 42) ''hi''
     = Inl (PyException ''quota exceeded'')
   \<and> isinstance_Exception (PyException ''quota exceeded'')
   \<and> \<not> isl (fst (generate_response (failing_remote ''quota exceeded'') Map.empty 42 ''hi''))
   \<and> fst (generate_response (failing_remote ''quota exceeded'') Map.empty 42 ''hi'')
       = Inr ''Sorry, I encountered an error: quota exceeded''
   \<and> cancelled_remote [] (window (add_message_to_history Map.empty 42 ''user'' ''hi'') 42) ''hi''
       = Inl (PyBaseException [])
   \<and> \<not> isinstance_Exception (PyBaseException [])
   \<and> fst (generate_response (cancelled_remote []) Map.empty 42 ''hi'')
       = Inl (PyBaseException [])"
proof -
  have h: "failing_remote ''quota exceeded''
             (window (add_message_to_history Map.empty 42 ''user'' ''hi'') 42) ''hi''
           = Inl (PyException ''quota exceeded'')"
    by (simp add: failing_remote_def)
  have i: "isinstance_Exception (PyException ''quota exceeded'')"
    by simp
  have k: "cancelled_remote [] (window (add_message_to_history Map.empty 42 ''user'' ''hi'') 42) ''hi''
           = Inl (PyBaseException [])"
    by (simp add: cancelled_remote_def)
  have n: "\<not> isinstance_Exception (PyBaseException [])"
    by simp
  have a: "\<not> isl (fst (generate_response (failing_remote ''quota exceeded'') Map.empty 42 ''hi''))
      \<and> fst (generate_response (failing_remote ''quota exceeded'') Map.empty 42 ''hi'')
          = Inr (''Sorry, I encountered an error: '' @ exn_str (PyException ''quota exceeded''))"
    using generate_response_failure_is_returned
      [of "failing_remote ''quota exceeded''" Map.empty 42 "''hi''" "PyException ''quota exceeded''",
        THEN conjunct1] h i
    by blast
  have b: "fst (generate_response (cancelled_remote []) Map.empty 42 ''hi'')
             = Inl (PyBaseException [])"
    using generate_response_failure_is_returned
      [of "cancelled_remote []" Map.empty 42 "''hi''" "PyBaseException []", THEN conjunct2] k n
    by blast
  from a have a1: "\<not> isl (fst (generate_response (failing_remote ''quota exceeded'') Map.empty 42 ''hi''))"
    by (rule conjunct1)
  from a have a2: "fst (generate_response (failing_remote ''quota exceeded'') Map.empty 42 ''hi'')
       = Inr ''Sorry, I encountered an error: quota exceeded''"
    by simp
  from h i a1 a2 k n b show ?thesis
    by (intro conjI)
qed

text \<open>
  C3 as stated fails: with a remote call that raises \<open>quota exceeded\<close>, the outcome is
  not that exception but the returned apology string.
\<close>

theorem generate_response_typed_error_counterexample:
  "fst (generate_response (failing_remote ''quota exceeded'') Map.empty 42 ''hi'')
     \<noteq> Inl (PyException ''quota exceeded'')
   \<and> fst (generate_response (failing_remote ''quota exceeded'') Map.empty 42 ''hi'')
       = Inr ''Sorry, I encountered an error: quota exceeded''"
  by (simp add: generate_response_def failing_remote_def Let_def)

text \<open>
  C5. The context that \<^verbatim>\<open>generate_response\<close> hands to the remote call is the user's
  buffer, as it is after the user turn was appended, without its last entry, which is
  that user turn; the message sent is the current message.
\<close>

theorem generate_response_context:
  "buffer (add_message_to_history cs u ''user'' msg) u
     = window (add_message_to_history cs u ''user'' msg) u @ [\<lparr>role = ''user'', content = msg\<rparr>]
   \<and> window (add_message_to_history cs u ''user'' msg) u
       = butlast (buffer (add_message_to_history cs u ''user'' msg) u)
   \<and> length (window (add_message_to_history cs u ''user'' msg) u)
       = length (buffer (add_message_to_history cs u ''user'' msg) u) - 1
   \<and> generate_response remote cs u msg
       = (case remote (butlast (buffer (add_message_to_history cs u ''user'' msg) u)) msg of
            Inr text \<Rightarrow>
              (Inr text,
               add_message_to_history (add_message_to_history cs u ''user'' msg) u ''model'' text)
          | Inl e \<Rightarrow>
              if isinstance_Exception e
              then (Inr (''Sorry, I encountered an error: '' @ exn_str e),
                    add_message_to_history cs u ''user'' msg)
              else (Inl e, add_message_to_history cs u ''user'' msg))"
proof -
  let ?cs = "add_message_to_history cs u ''user'' msg"
  have w: "window ?cs u = butlast (buffer ?cs u)"
    by (rule window_butlast)
  have b: "buffer ?cs u = window ?cs u @ [\<lparr>role = ''user'', content = msg\<rparr>]"
    unfolding w by (rule buffer_add_snoc)
  have g: "generate_response remote cs u msg
       = (case remote (butlast (buffer ?cs u)) msg of
            Inr text \<Rightarrow> (Inr text, add_message_to_history ?cs u ''model'' text)
          | Inl e \<Rightarrow>
              if isinstance_Exception e
              then (Inr (''Sorry, I encountered an error: '' @ exn_str e), ?cs)
              else (Inl e, ?cs))"
    by (simp add: generate_response_def Let_def w)
  from w b g show ?thesis
    by simp
qed

section \<open>Properties of clearing\<close>

text \<open>
  C8. After \<^verbatim>\<open>clear_conversation\<close> the user's buffer is empty, a second call changes
  nothing, and the window read from the cleared store is empty, whatever the store was.
\<close>

theorem clear_conversation_empties:
  "buffer (clear_conversation cs u) u = []
   \<and> clear_conversation (clear_conversation cs u) u = clear_conversation cs u
   \<and> window (clear_conversation cs u) u = []"
  by (auto simp: clear_conversation_def buffer_def window_def Let_def)

text \<open>
  C10. For a user id that is not a key of the map, \<^verbatim>\<open>clear_conversation\<close> returns the
  map unchanged (no empty buffer is created), while \<^verbatim>\<open>add_message_to_history\<close>
  creates the buffer, holding the one appended turn.
\<close>

theorem clear_conversation_absent:
  assumes "cs u = None"
  shows "clear_conversation cs u = cs
       \<and> u \<notin> dom (clear_conversation cs u)
       \<and> add_message_to_history cs u r c u = Some [\<lparr>role = r, content = c\<rparr>]
       \<and> dom (add_message_to_history cs u r c) = insert u (dom cs)"
  using assms
  by (auto simp: clear_conversation_def add_message_to_history_def buffer_def Let_def
      MAX_HISTORY_LENGTH_def dom_def)

theorem clear_conversation_absent_witness:
  "(Map.empty :: store) 7 = None
   \<and> clear_conversation Map.empty 7 = Map.empty
   \<and> add_message_to_history Map.empty 7 ''user'' ''hi'' 7
        = Some [\<lparr>role = ''user'', content = ''hi''\<rparr>]"
  using clear_conversation_absent [of Map.empty 7 "''user''" "''hi''"] by simp

section \<open>Independence of the users' buffers\<close>

lemma add_message_to_history_other:
  "a \<noteq> b \<Longrightarrow> add_message_to_history cs a r c b = cs b"
  by (simp add: add_message_to_history_def Let_def)

lemma clear_conversation_other:
  "a \<noteq> b \<Longrightarrow> clear_conversation cs a b = cs b"
  by (simp add: clear_conversation_def)

lemma apply_call_other: "target c \<noteq> b \<Longrightarrow> apply_call cs c b = cs b"
  by (cases c) (simp_all add: add_message_to_history_other clear_conversation_other)

lemma add_message_to_history_same:
  "add_message_to_history cs u r c u = Some (buffer (add_message_to_history cs u r c) u)"
  by (simp add: add_message_to_history_def buffer_def Let_def)

lemma clear_conversation_same:
  "clear_conversation cs u u = (if cs u = None then None else Some [])"
  by (simp add: clear_conversation_def)

lemma apply_call_cong:
  assumes "cs b = cs' b"
  shows "apply_call cs c b = apply_call cs' c b"
proof (cases "target c = b")
  case True
  from assms have bb: "buffer cs b = buffer cs' b"
    by (simp add: buffer_def)
  show ?thesis
  proof (cases c)
    case (AddMessage u r t)
    with True have u: "u = b" by simp
    have "buffer (add_message_to_history cs b r t) b = buffer (add_message_to_history cs' b r t) b"
      unfolding buffer_add_message_to_history bb ..
    then have "add_message_to_history cs b r t b = add_message_to_history cs' b r t b"
      using add_message_to_history_same [of cs b r t] add_message_to_history_same [of cs' b r t]
      by simp
    then show ?thesis
      unfolding AddMessage u by simp
  next
    case (ClearConversation u)
    with True have u: "u = b" by simp
    show ?thesis
      unfolding ClearConversation u using assms by (simp add: clear_conversation_same)
  qed
next
  case False
  with assms show ?thesis
    by (simp add: apply_call_other)
qed

lemma apply_calls_cong:
  "cs b = cs' b \<Longrightarrow> apply_calls cs calls b = apply_calls cs' calls b"
proof (induction calls arbitrary: cs cs')
  case Nil
  then show ?case by simp
next
  case (Cons c calls)
  from Cons.prems have "apply_call cs c b = apply_call cs' c b"
    by (rule apply_call_cong)
  then have "apply_calls (apply_call cs c) calls b = apply_calls (apply_call cs' c) calls b"
    by (rule Cons.IH)
  then show ?case
    by simp
qed

lemma apply_calls_filter:
  "apply_calls cs calls b = apply_calls cs (filter (\<lambda>c. target c = b) calls) b"
proof (induction calls arbitrary: cs)
  case Nil
  then show ?case by simp
next
  case (Cons c calls)
  show ?case
  proof (cases "target c = b")
    case True
    then show ?thesis by (simp add: Cons.IH)
  next
    case False
    then have "apply_call cs c b = cs b"
      by (rule apply_call_other)
    then have "apply_calls (apply_call cs c) calls b = apply_calls cs calls b"
      by (rule apply_calls_cong)
    with False show ?thesis
      by (simp add: Cons.IH)
  qed
qed

text \<open>
  C9. For distinct user ids \<open>a\<close> and \<open>b\<close>, a call of \<^verbatim>\<open>add_message_to_history\<close> or
  of \<^verbatim>\<open>clear_conversation\<close> for \<open>a\<close> leaves the entry of \<open>b\<close> as it was; a run of
  such calls none of which is for \<open>b\<close> leaves the entry of \<open>b\<close> as it was; and after
  any interleaved run the entry of \<open>b\<close> is what the calls for \<open>b\<close> alone produce.
\<close>

theorem buffers_independent:
  "(a \<noteq> b \<longrightarrow>
      add_message_to_history cs a r c b = cs b \<and> clear_conversation cs a b = cs b)
   \<and> ((\<forall>k \<in> set calls. target k \<noteq> b) \<longrightarrow> apply_calls cs calls b = cs b)
   \<and> apply_calls cs calls b = apply_calls cs (filter (\<lambda>k. target k = b) calls) b"
proof -
  have "apply_calls cs calls b = cs b" if "\<forall>k \<in> set calls. target k \<noteq> b"
  proof -
    from that have "filter (\<lambda>k. target k = b) calls = []"
      by (simp add: filter_empty_conv)
    with apply_calls_filter [of cs calls b] show ?thesis
      by simp
  qed
  then show ?thesis
    using add_message_to_history_other [of a b cs r c] clear_conversation_other [of a b cs]
      apply_calls_filter [of cs calls b]
    by blast
qed

theorem buffers_independent_witness:
  "(1::int) \<noteq> 2
   \<and> target (AddMessage 1 ''user'' ''from A'') \<noteq> 2
   \<and> target (ClearConversation 1) \<noteq> 2
   \<and> target (AddMessage 1 ''user'' ''again A'') \<noteq> 2
   \<and> add_message_to_history [2 \<mapsto> [\<lparr>role = ''user'', content = ''from B''\<rparr>]] 1 ''user'' ''from A'' 2
        = Some [\<lparr>role = ''user'', content = ''from B''\<rparr>]
   \<and> clear_conversation [2 \<mapsto> [\<lparr>role = ''user'', content = ''from B''\<rparr>]] 1 2
        = Some [\<lparr>role = ''user'', content = ''from B''\<rparr>]
   \<and> apply_calls [2 \<mapsto> [\<lparr>role = ''user'', content = ''from B''\<rparr>]]
        [AddMessage 1 ''user'' ''from A'', ClearConversation 1, AddMessage 1 ''user'' ''again A''] 2
        = Some [\<lparr>role = ''user'', content = ''from B''\<rparr>]"
proof -
  let ?cs = "[2 \<mapsto> [\<lparr>role = ''user'', content = ''from B''\<rparr>]] :: store"
  let ?calls = "[AddMessage 1 ''user'' ''from A'', ClearConversation 1,
                 AddMessage 1 ''user'' ''again A'']"
  note t = buffers_independent [of 1 2 ?cs "''user''" "''from A''" ?calls]
  have d: "(1::int) \<noteq> 2"
    by simp
  have q: "\<forall>k \<in> set ?calls. target k \<noteq> 2"
    by simp
  have v: "?cs 2 = Some [\<lparr>role = ''user'', content = ''from B''\<rparr>]"
    by simp
  from t [THEN conjunct1] d
  have x: "add_message_to_history ?cs 1 ''user'' ''from A'' 2 = ?cs 2
         \<and> clear_conversation ?cs 1 2 = ?cs 2"
    by (rule mp)
  from t [THEN conjunct2, THEN conjunct1] q
  have y: "apply_calls ?cs ?calls 2 = ?cs 2"
    by (rule mp)
  have x1: "add_message_to_history ?cs 1 ''user'' ''from A'' 2
              = Some [\<lparr>role = ''user'', content = ''from B''\<rparr>]"
    using x [THEN conjunct1] v by (rule trans)
  have x2: "clear_conversation ?cs 1 2 = Some [\<lparr>role = ''user'', content = ''from B''\<rparr>]"
    using x [THEN conjunct2] v by (rule trans)
  have y1: "apply_calls ?cs ?calls 2 = Some [\<lparr>role = ''user'', content = ''from B''\<rparr>]"
    using y v by (rule trans)
  have q1: "target (AddMessage 1 ''user'' ''from A'') \<noteq> 2"
    by simp
  have q2: "target (ClearConversation 1) \<noteq> 2"
    by simp
  have q3: "target (AddMessage 1 ''user'' ''again A'') \<noteq> 2"
    by simp
  show ?thesis
    using d q1 q2 q3 x1 x2 y1 by (intro conjI) assumption+
qed

section \<open>The history of the terminal variant\<close>

lemma terminal_generate_response_length:
  assumes "remote (py_slice (if length h \<ge> 20 then tl (h @ [\<lparr>role = ''user'', content = m\<rparr>])
                              else h @ [\<lparr>role = ''user'', content = m\<rparr>]) None (Some (- 1))) m = Inr t"
  shows "length (snd (terminal_generate_response remote h m))
           = (if length h \<ge> 20 then length h + 1 else length h + 2)"
  using assms
  by (cases h) (auto simp: terminal_generate_response_def pop0_def Let_def split: list.splits)

lemma terminal_session_grows:
  "20 \<le> length h \<Longrightarrow>
   length (terminal_session (succeeding_remote t) h ms) = length h + length ms"
proof (induction ms arbitrary: h)
  case Nil
  then show ?case by simp
next
  case (Cons m ms)
  have "length (snd (terminal_generate_response (succeeding_remote t) h m)) = length h + 1"
    using Cons.prems
      terminal_generate_response_length [of "succeeding_remote t" h m t]
    by (simp add: succeeding_remote_def)
  with Cons.prems Cons.IH [of "snd (terminal_generate_response (succeeding_remote t) h m)"]
  show ?case by simp
qed

text \<open>
  C4 fails on the code: from the empty history, eleven calls of \<^verbatim>\<open>generate_response\<close>
  of terminal\_chat.py whose remote call succeeds leave 21 entries. The model turn is
  appended with no trimming after it, and \<^verbatim>\<open>pop(0)\<close> removes one entry only.
\<close>

theorem terminal_history_exceeds_cap:
  "length (terminal_session (succeeding_remote ''ok'') [] (replicate 11 ''hi'')) = 21"
  by code_simp

section \<open>Properties of the summary\<close>

lemma digit_value_digit: "d < 10 \<Longrightarrow> digit_value (''0123456789'' ! d) = d"
proof -
  assume "d < 10"
  then consider "d = 0" | "d = 1" | "d = 2" | "d = 3" | "d = 4" | "d = 5" | "d = 6" | "d = 7"
    | "d = 8" | "d = 9"
    by atomize_elim arith
  then show ?thesis
    by cases (simp_all add: digit_value_def)
qed

lemma decimal_value_str_nat: "decimal_value (str_nat n) = n"
proof (induction n rule: str_nat.induct)
  case (1 n)
  show ?case
  proof (cases "n < 10")
    case True
    then show ?thesis
      by (simp add: str_nat.simps [of n] decimal_value_def digit_value_digit)
  next
    case False
    with 1 have "decimal_value (str_nat (n div 10)) = n div 10"
      by simp
    then have "decimal_value (str_nat (n div 10) @ [''0123456789'' ! (n mod 10)])
                 = 10 * (n div 10) + n mod 10"
      by (simp add: decimal_value_def digit_value_digit)
    with False show ?thesis
      by (simp add: str_nat.simps [of n])
  qed
qed

lemma py_slice_prefix: "py_slice xs None (Some (int k)) = take k xs"
  by (simp add: py_slice_def py_bound_def Let_def min_def)

lemma summary_line_spec: "summary_line i t = spec_entry i t"
  using py_slice_prefix [of "content t" 50]
  by (simp add: summary_line_def spec_entry_def spec_shown_def Let_def)

lemma summary_loop_concat:
  "summary_loop s i xs
     = s @ concat (map (\<lambda>(j, t). spec_entry j t) (zip [i..<i + length xs] xs))"
proof (induction xs arbitrary: s i)
  case Nil
  then show ?case by simp
next
  case (Cons t xs)
  have "[i..<i + length (t # xs)] = i # [Suc i..<Suc i + length xs]"
    by (simp add: upt_conv_Cons del: upt_Suc)
  then show ?case
    by (simp add: Cons.IH summary_line_spec del: upt_Suc)
qed

text \<open>
  C6. \<^verbatim>\<open>get_conversation_summary\<close> returns \<^verbatim>\<open>"No conversation history."\<close> for an empty
  or absent buffer; for a buffer of \<open>N > 0\<close> turns it returns the header with the decimal
  count \<open>N\<close> followed by exactly \<open>min N 5\<close> entries for the trailing turns in order, the
  content of each shown unchanged up to 50 characters and cut to 50 characters plus
  \<^verbatim>\<open>"..."\<close> beyond.
\<close>

theorem get_conversation_summary_digest:
  "get_conversation_summary cs u = spec_summary (buffer cs u)
   \<and> length (drop (length (buffer cs u) - min (length (buffer cs u)) 5) (buffer cs u))
        = min (length (buffer cs u)) 5
   \<and> decimal_value (str_nat (length (buffer cs u))) = length (buffer cs u)"
proof -
  have s: "get_conversation_summary cs u = spec_summary (buffer cs u)"
  proof (cases "cs u")
    case None
    then show ?thesis
      by (simp add: get_conversation_summary_def spec_summary_def buffer_def)
  next
    case (Some msgs)
    show ?thesis
    proof (cases "msgs = []")
      case True
      with Some show ?thesis
        by (simp add: get_conversation_summary_def spec_summary_def buffer_def)
    next
      case False
      have sl: "py_slice msgs (Some (- 5)) None = drop (length msgs - 5) msgs"
        using py_slice_last [of 5 msgs] by simp
      have m: "length msgs - min (length msgs) 5 = length msgs - 5"
        by simp
      have n: "length msgs - (length msgs - 5) = min (length msgs) 5"
        by auto
      from Some False show ?thesis
        unfolding get_conversation_summary_def spec_summary_def buffer_def
        by (simp add: Let_def sl summary_loop_concat m n del: upt_Suc)
    qed
  qed
  have l: "length (drop (length (buffer cs u) - min (length (buffer cs u)) 5) (buffer cs u))
        = min (length (buffer cs u)) 5"
    by auto
  from s l decimal_value_str_nat [of "length (buffer cs u)"] show ?thesis
    by (intro conjI)
qed

theorem get_conversation_summary_digest_witness:
  "get_conversation_summary Map.empty 7 = ''No conversation history.''
   \<and> get_conversation_summary [7 \<mapsto> []] 7 = ''No conversation history.''
   \<and> get_conversation_summary [7 \<mapsto> six_turns] 7
      = ''Conversation has 6 messages:'' @ [CHR 0x0A]
        @ ''1. Bot: b'' @ [CHR 0x0A]
        @ ''2. You: c'' @ [CHR 0x0A]
        @ ''3. Bot: '' @ replicate 50 CHR ''x'' @ ''...'' @ [CHR 0x0A]
        @ ''4. You: e'' @ [CHR 0x0A]
        @ ''5. Bot: f'' @ [CHR 0x0A]"
proof -
  have a: "get_conversation_summary Map.empty 7 = ''No conversation history.''"
    using get_conversation_summary_digest [of Map.empty 7, THEN conjunct1]
    by (simp add: buffer_def spec_summary_def)
  have b: "get_conversation_summary [7 \<mapsto> []] 7 = ''No conversation history.''"
    using get_conversation_summary_digest [of "[7 \<mapsto> []]" 7, THEN conjunct1]
    by (simp add: buffer_def spec_summary_def)
  have c: "get_conversation_summary [7 \<mapsto> six_turns] 7
      = ''Conversation has 6 messages:'' @ [CHR 0x0A]
        @ ''1. Bot: b'' @ [CHR 0x0A]
        @ ''2. You: c'' @ [CHR 0x0A]
        @ ''3. Bot: '' @ replicate 50 CHR ''x'' @ ''...'' @ [CHR 0x0A]
        @ ''4. You: e'' @ [CHR 0x0A]
        @ ''5. Bot: f'' @ [CHR 0x0A]"
    using get_conversation_summary_digest [of "[7 \<mapsto> six_turns]" 7, THEN conjunct1]
    by (simp add: buffer_def spec_summary_def spec_entry_def spec_shown_def six_turns_def
        str_nat.simps upt_rec [of "Suc 0"] upt_rec [of 2] upt_rec [of 3] upt_rec [of 4] upt_rec [of 5])
  from a b c show ?thesis
    by (intro conjI)
qed

section \<open>Properties of the chunking\<close>

lemma py_slice_chunk:
  "py_slice xs (Some (int j)) (Some (int j + int k)) = take k (drop j xs)"
proof -
  have "py_bound (length xs) (int j) = min (length xs) j"
    by (simp add: py_bound_def)
  moreover have "py_bound (length xs) (int j + int k) = min (length xs) (j + k)"
    by (simp add: py_bound_def nat_add_distrib)
  ultimately have "py_slice xs (Some (int j)) (Some (int j + int k))
      = take (min (length xs) (j + k) - min (length xs) j) (drop (min (length xs) j) xs)"
    by (simp add: py_slice_def Let_def)
  also have "\<dots> = take k (drop j xs)"
    by (cases "j \<le> length xs") (auto simp: min_def)
  finally show ?thesis .
qed

lemma concat_chunks_from:
  "0 < k \<Longrightarrow> concat (map (\<lambda>j. take k (drop j xs)) (py_range i (length xs) k)) = drop i xs"
proof (induction "length xs - i" arbitrary: i rule: less_induct)
  case less
  show ?case
  proof (cases "length xs \<le> i")
    case True
    then show ?thesis
      by (simp add: py_range.simps [of i])
  next
    case False
    with less.prems have "length xs - (i + k) < length xs - i"
      by simp
    then have "concat (map (\<lambda>j. take k (drop j xs)) (py_range (i + k) (length xs) k))
                 = drop (i + k) xs"
      using less.prems by (rule less.hyps)
    moreover have "take k (drop i xs) @ drop (i + k) xs = drop i xs"
      using append_take_drop_id [of k "drop i xs"] by (simp add: add.commute)
    ultimately show ?thesis
      using False less.prems by (simp add: py_range.simps [of i])
  qed
qed

lemma response_chunks_take_drop:
  "response_chunks response
     = map (\<lambda>j. take 4096 (drop j response)) (py_range 0 (length response) 4096)"
proof -
  have "py_slice response (Some (int j)) (Some (int j + MAX_MESSAGE_LENGTH))
          = take 4096 (drop j response)" for j
    using py_slice_chunk [of response j 4096] by (simp add: MAX_MESSAGE_LENGTH_def)
  then show ?thesis
    by (simp add: response_chunks_def MAX_MESSAGE_LENGTH_def)
qed

text \<open>
  C7. The chunks computed in \<^verbatim>\<open>handle_message\<close> are, in order, pieces of at most
  \<open>MAX_MESSAGE_LENGTH = 4096\<close> characters whose concatenation is the response; they are
  what is sent for a response longer than 4096 characters; and \<^verbatim>\<open>generate_response\<close>
  returns the text of the remote call whole.
\<close>

theorem response_chunks_partition:
  "concat (response_chunks response) = response
   \<and> (\<forall>chunk \<in> set (response_chunks response). int (length chunk) \<le> MAX_MESSAGE_LENGTH)
   \<and> (int (length response) > MAX_MESSAGE_LENGTH \<longrightarrow>
         handle_message_texts response = response_chunks response)
   \<and> (remote (window (add_message_to_history cs u ''user'' msg) u) msg = Inr response \<longrightarrow>
         fst (generate_response remote cs u msg) = Inr response)"
proof -
  have c: "concat (response_chunks response) = response"
    unfolding response_chunks_take_drop
    using concat_chunks_from [of 4096 response 0] by simp
  have l: "\<forall>chunk \<in> set (response_chunks response). int (length chunk) \<le> MAX_MESSAGE_LENGTH"
    unfolding response_chunks_take_drop by (auto simp: MAX_MESSAGE_LENGTH_def)
  have h: "int (length response) > MAX_MESSAGE_LENGTH \<longrightarrow>
             handle_message_texts response = response_chunks response"
    by (simp add: handle_message_texts_def)
  have g: "remote (window (add_message_to_history cs u ''user'' msg) u) msg = Inr response \<longrightarrow>
             fst (generate_response remote cs u msg) = Inr response"
    by (simp add: generate_response_def Let_def)
  from c l h g show ?thesis
    by (intro conjI)
qed

lemma response_chunks_5000:
  "response_chunks (replicate 5000 CHR ''a'')
     = [replicate 4096 CHR ''a'', replicate 904 CHR ''a'']"
  unfolding response_chunks_take_drop
  by (simp add: py_range.simps)

theorem response_chunks_partition_witness:
  "int (length (replicate 5000 CHR ''a'')) > MAX_MESSAGE_LENGTH
   \<and> handle_message_texts (replicate 5000 CHR ''a'')
        = [replicate 4096 CHR ''a'', replicate 904 CHR ''a'']
   \<and> concat [replicate 4096 CHR ''a'', replicate 904 CHR ''a''] = replicate 5000 CHR ''a''
   \<and> int (length (replicate 904 CHR ''a'')) \<le> MAX_MESSAGE_LENGTH
   \<and> succeeding_remote (replicate 5000 CHR ''a'')
        (window (add_message_to_history Map.empty 42 ''user'' ''hi'') 42) ''hi''
        = Inr (replicate 5000 CHR ''a'')
   \<and> fst (generate_response (succeeding_remote (replicate 5000 CHR ''a'')) Map.empty 42 ''hi'')
        = Inr (replicate 5000 CHR ''a'')"
proof -
  let ?r = "replicate 5000 CHR ''a''"
  note t = response_chunks_partition [of ?r "succeeding_remote ?r" Map.empty 42 "''hi''"]
  have big: "int (length ?r) > MAX_MESSAGE_LENGTH"
    by (simp add: MAX_MESSAGE_LENGTH_def)
  have ok: "succeeding_remote ?r (window (add_message_to_history Map.empty 42 ''user'' ''hi'') 42) ''hi''
              = Inr ?r"
    by (simp add: succeeding_remote_def)
  have c: "concat [replicate 4096 CHR ''a'', replicate 904 CHR ''a''] = ?r"
    using t [THEN conjunct1] unfolding response_chunks_5000 .
  have m: "replicate 904 CHR ''a'' \<in> set (response_chunks ?r)"
    unfolding response_chunks_5000 by simp
  have l: "int (length (replicate 904 CHR ''a'')) \<le> MAX_MESSAGE_LENGTH"
    using t [THEN conjunct2, THEN conjunct1] m by (rule bspec)
  have h: "handle_message_texts ?r = [replicate 4096 CHR ''a'', replicate 904 CHR ''a'']"
    using t [THEN conjunct2, THEN conjunct2, THEN conjunct1] big
    unfolding response_chunks_5000 by (rule mp)
  have g: "fst (generate_response (succeeding_remote ?r) Map.empty 42 ''hi'') = Inr ?r"
    using t [THEN conjunct2, THEN conjunct2, THEN conjunct2] ok by (rule mp)
  from big h c l ok g show ?thesis
    by (intro conjI)
qed

end
